theory Spec2Isabelle
  imports Complex_Main
begin

section \<open>The multimeter of NEST (models/multimeter.cpp)\<close>

text \<open>
  A multimeter is a recording node: once per time slice it sends a
  \<open>DataLoggingRequest\<close> to its targets, and every \<open>DataLoggingReply\<close> that comes
  back is filtered against the recording window of its \<open>RecordingDevice\<close> and
  appended, row by row, to \<open>S_.data_\<close>. \<open>add_data_\<close> turns the rows into one
  vector per recorded quantity.

  Conventions of the embedding:
  \<^item> \<open>double_t\<close> is \<open>real\<close>. The recorded values are only copied, never computed with.
    The one computation on doubles, the tolerance test of \<open>Parameters_::set\<close>, is
    done as binary64 does it: the quotient and the difference are rounded to
    nearest, ties to even, and division by zero is written out.
    A candidate interval is a finite number: infinities and NaN are left out.
  \<^item> \<open>long_t\<close> and \<open>size_t\<close> are \<open>int\<close> and \<open>nat\<close>: no arithmetic is done on them.
  \<^item> A member function returns the object it ran on, as it is when control leaves
    the function, together with what it throws or sends.
  \<^item> A name cannot end in an underscore here. The structs \<open>Parameters_\<close>,
    \<open>State_\<close>, \<open>Buffers_\<close> and \<open>Variables_\<close> lose theirs, the member \<open>P_.interval_\<close>
    is \<open>P_interval\<close> of \<open>P\<close>, and so on for \<open>S_\<close>, \<open>B_\<close> and \<open>V_\<close>; \<open>add_data_\<close> is
    \<open>add_data\<close>. The keys \<open>names::interval\<close> and \<open>names::record_from\<close> are
    \<open>names_interval\<close> and \<open>names_record_from\<close>.
\<close>

subsection \<open>What lies outside the file\<close>

text \<open>
  Class \<open>Time\<close> (nest\_time.h) is not part of the sources. The operations the
  multimeter calls are taken as parameters: \<open>Time_ms K v\<close> is \<open>Time(Time::ms(v))\<close>,
  \<open>Time_step K n\<close> is \<open>Time(Time::step(n))\<close>, \<open>time_less\<close> is \<open>operator<\<close>.
\<close>

record 't TimeOps =
  Time_ms :: "real \<Rightarrow> 't"
  Time_step :: "int \<Rightarrow> 't"
  get_resolution :: "'t"
  time_less :: "'t \<Rightarrow> 't \<Rightarrow> bool"
  get_steps :: "'t \<Rightarrow> int"
  get_ms :: "'t \<Rightarrow> real"
  is_finite :: "'t \<Rightarrow> bool"

text \<open>
  Modelled from the spec: class \<open>Time\<close> is missing from the sources. The spec has a
  candidate interval rejected "if it is smaller than the current resolution",
  otherwise rounded "to the nearest integer multiple of the resolution", and a
  non-finite timestamp as the end mark of a reply. A time is a number of
  milliseconds or the non-finite mark; \<open>r\<close> is the resolution in milliseconds.
\<close>

datatype SpecTime = Finite real | NonFinite

fun spec_less :: "SpecTime \<Rightarrow> SpecTime \<Rightarrow> bool" where
  "spec_less (Finite a) (Finite b) = (a < b)"
| "spec_less (Finite a) NonFinite = True"
| "spec_less NonFinite t = False"

fun spec_steps :: "real \<Rightarrow> SpecTime \<Rightarrow> int" where
  "spec_steps r (Finite a) = round (a / r)"
| "spec_steps r NonFinite = 0"

fun spec_ms :: "SpecTime \<Rightarrow> real" where
  "spec_ms (Finite a) = a"
| "spec_ms NonFinite = 0"

fun spec_finite :: "SpecTime \<Rightarrow> bool" where
  "spec_finite (Finite a) = True"
| "spec_finite NonFinite = False"

definition spec_time :: "real \<Rightarrow> SpecTime TimeOps" where
  "spec_time r =
     \<lparr> Time_ms = Finite,
       Time_step = (\<lambda>n. Finite (of_int n * r)),
       get_resolution = Finite r,
       time_less = spec_less,
       get_steps = spec_steps r,
       get_ms = spec_ms,
       is_finite = spec_finite \<rparr>"

subsection \<open>Failures\<close>

text \<open>
  The file fails in two ways: \<open>throw BadProperty(msg)\<close>, an exception the caller
  can catch, and \<open>assert\<close>, which aborts the process (assertions compiled in, as
  the source is written).
\<close>

datatype failure = BadProperty string | AssertionFailure

fun terminates_process :: "failure \<Rightarrow> bool" where
  "terminates_process (BadProperty msg) = False"
| "terminates_process AssertionFailure = True"

text \<open>The three messages of \<open>Parameters_::set\<close>, under the names the spec gives them.\<close>

definition ConfigurationLockedError :: failure where
  "ConfigurationLockedError =
     BadProperty ''The recording interval and the list of properties to record cannot be changed after the multimeter has been connected to nodes.''"

definition ResolutionTooCoarseError :: failure where
  "ResolutionTooCoarseError =
     BadProperty ''The sampling interval must be at least as long as the simulation resolution.''"

definition NonMultipleIntervalError :: failure where
  "NonMultipleIntervalError =
     BadProperty ''The sampling interval must be a multiple of the simulation resolution''"

subsection \<open>Data\<close>

type_synonym Name = string

record 't Parameters =
  P_interval :: "'t"
  P_record_from :: "Name list"

record State =
  S_data :: "real list list"

record Buffers =
  B_has_targets :: bool

record Variables =
  V_new_request :: bool
  V_current_request_data_start :: nat

text \<open>
  Of the \<open>RecordingDevice\<close> the multimeter reads the two bounds, in steps, and calls
  \<open>write\<close>; \<open>written\<close> lists the calls of \<open>write\<close> in order, each with the stamp
  the reply carried and the values passed.
\<close>

record 't RecordingDevice =
  t_min :: int
  t_max :: int
  written :: "('t \<times> real list) list"

record 't Multimeter =
  device :: "'t RecordingDevice"
  P :: "'t Parameters"
  S :: State
  B :: Buffers
  V :: Variables

text \<open>
  The status dictionary, cut down to the two keys the multimeter knows;
  \<open>None\<close> is a key that is not in the dictionary.
\<close>

record DictionaryDatum =
  names_interval :: "real option"
  names_record_from :: "Name list option"

text \<open>
  The two constructors of \<open>DataLoggingRequest\<close> the file uses: with no argument in
  \<open>update\<close>, with interval and record list in \<open>send_test_event\<close>.
\<close>

datatype 't DataLoggingRequest =
  DataLoggingRequest_empty
| DataLoggingRequest_for 't "Name list"

text \<open>One entry of the container of a \<open>DataLoggingReply\<close>.\<close>

record 't Item =
  timestamp :: "'t"
  data :: "real list"

subsection \<open>Parameters\<close>

definition Parameters_default :: "'t TimeOps \<Rightarrow> 't Parameters" where
  "Parameters_default K = \<lparr> P_interval = Time_ms K 1, P_record_from = [] \<rparr>"

definition Parameters_get :: "'t TimeOps \<Rightarrow> 't Parameters \<Rightarrow> DictionaryDatum \<Rightarrow> DictionaryDatum" where
  "Parameters_get K p d =
     d\<lparr> names_interval := Some (get_ms K (P_interval p)), names_record_from := Some (P_record_from p) \<rparr>"

definition epsilon :: real where
  "epsilon = 1 / 2 ^ 52"

subsection \<open>Double arithmetic\<close>

text \<open>
  The result of an operation on doubles is the exact result rounded to the
  nearest number with a significand of 53 bits, a tie going to the even
  significand. The range of the exponent is left out: the tolerance test only
  tells quotients near 1 from the others, and a quotient that overflows or
  underflows is far from 1 either way.

  \<open>ilog2 x\<close> is the exponent of a positive \<open>x\<close>: \<open>2 powi (ilog2 x) \<le> x < 2 powi (ilog2 x + 1)\<close>.
\<close>

function ilog2 :: "real \<Rightarrow> int" where
  "ilog2 x = (if 2 \<le> x then ilog2 (x / 2) + 1 else if 0 < x \<and> x < 1 then ilog2 (2 * x) - 1 else 0)"
  by pat_completeness auto
termination
proof (relation "measure (\<lambda>x. nat (\<lceil>x\<rceil> + 2 * \<lceil>1 / x\<rceil>))")
  show "wf (measure (\<lambda>x. nat (\<lceil>x\<rceil> + 2 * \<lceil>1 / x\<rceil>)))" by simp
next
  fix x :: real
  assume a: "2 \<le> x"
  have 1: "\<lceil>x / 2\<rceil> < \<lceil>x\<rceil>" using a by linarith
  have 2: "\<lceil>1 / (x / 2)\<rceil> = 1" using a by (simp add: ceiling_eq_iff)
  have 3: "\<lceil>1 / x\<rceil> = 1" using a by (simp add: ceiling_eq_iff)
  have 4: "0 < \<lceil>x\<rceil>" using a by linarith
  have "\<lceil>x / 2\<rceil> + 2 * \<lceil>1 / (x / 2)\<rceil> < \<lceil>x\<rceil> + 2 * \<lceil>1 / x\<rceil>"
    unfolding 2 3 using 1 by linarith
  moreover have "0 < \<lceil>x\<rceil> + 2 * \<lceil>1 / x\<rceil>" unfolding 3 using 4 by linarith
  ultimately show "(x / 2, x) \<in> measure (\<lambda>x. nat (\<lceil>x\<rceil> + 2 * \<lceil>1 / x\<rceil>))"
    unfolding in_measure zless_nat_conj by blast
next
  fix x :: real
  assume "\<not> 2 \<le> x" and a: "0 < x \<and> x < 1"
  have cx: "\<lceil>x\<rceil> = 1" using a by (simp add: ceiling_eq_iff)
  have lt: "\<lceil>2 * x\<rceil> + 2 * \<lceil>1 / (2 * x)\<rceil> < \<lceil>x\<rceil> + 2 * \<lceil>1 / x\<rceil>"
  proof (cases "x \<le> 1 / 2")
    case True
    with a have 1: "\<lceil>2 * x\<rceil> = 1" by (simp add: ceiling_eq_iff)
    define y where "y = 1 / x"
    from True a have "2 \<le> y" by (simp add: y_def field_simps)
    then have "y / 2 \<le> y - 1" by simp
    then have "\<lceil>y / 2\<rceil> \<le> \<lceil>y - 1\<rceil>" by (rule ceiling_mono)
    also have "\<dots> = \<lceil>y\<rceil> - 1" by simp
    finally have h: "\<lceil>y / 2\<rceil> < \<lceil>y\<rceil>" by simp
    have e: "1 / (2 * x) = y / 2" by (simp add: y_def)
    have "\<lceil>1 / (2 * x)\<rceil> < \<lceil>1 / x\<rceil>" unfolding e using h unfolding y_def .
    with 1 cx show ?thesis by linarith
  next
    case False
    with a have 1: "\<lceil>2 * x\<rceil> = 2" by (simp add: ceiling_eq_iff)
    from False a have 2: "\<lceil>1 / (2 * x)\<rceil> = 1" by (simp add: ceiling_eq_iff field_simps)
    from False a have 3: "\<lceil>1 / x\<rceil> = 2" by (simp add: ceiling_eq_iff field_simps)
    show ?thesis unfolding 1 2 3 cx by simp
  qed
  moreover have "0 < \<lceil>x\<rceil> + 2 * \<lceil>1 / x\<rceil>"
  proof -
    from a have "0 < 1 / x" by simp
    then have "0 < \<lceil>1 / x\<rceil>" by linarith
    with cx show ?thesis by linarith
  qed
  ultimately show "(2 * x, x) \<in> measure (\<lambda>x. nat (\<lceil>x\<rceil> + 2 * \<lceil>1 / x\<rceil>))"
    unfolding in_measure zless_nat_conj by blast
qed

declare ilog2.simps [simp del]

text \<open>Rounding to the nearest integer, a tie going to the even one.\<close>

definition rne :: "real \<Rightarrow> int" where
  "rne y =
     (let f = \<lfloor>y\<rfloor>; d = y - of_int f
      in if d < 1 / 2 then f else if 1 / 2 < d then f + 1 else if even f then f else f + 1)"

text \<open>Rounding to a double: \<open>u\<close> is the unit in the last place of \<open>x\<close>.\<close>

definition fl :: "real \<Rightarrow> real" where
  "fl x =
     (if x = 0 then 0
      else let u = 2 powi (ilog2 \<bar>x\<bar> - 52) in sgn x * of_int (rne (\<bar>x\<bar> / u)) * u)"

text \<open>
  \<open>std::abs(1 - x / v) > 10 * epsilon\<close>, with the quotient and the difference
  rounded; \<open>std::abs\<close> and the product \<open>10 * epsilon\<close> are exact. For \<open>v = 0\<close> the
  quotient of doubles is an infinity when \<open>x\<close> is not zero (the test holds) and
  NaN when it is (no comparison with NaN holds).
\<close>

definition deviates :: "real \<Rightarrow> real \<Rightarrow> bool" where
  "deviates x v = (if v = 0 then x \<noteq> 0 else \<bar>fl (1 - fl (x / v))\<bar> > 10 * epsilon)"

subsection \<open>Setting the parameters\<close>

text \<open>The last block of \<open>set\<close>: the record list is replaced when the key is known.\<close>

definition extract_data :: "'t Parameters \<Rightarrow> DictionaryDatum \<Rightarrow> 't Parameters" where
  "extract_data p d =
     (case names_record_from d of
        None \<Rightarrow> p
      | Some ad \<Rightarrow> p\<lparr> P_record_from := [] @ ad \<rparr>)"

definition Parameters_set ::
  "'t TimeOps \<Rightarrow> 't Parameters \<Rightarrow> DictionaryDatum \<Rightarrow> Buffers \<Rightarrow> 't Parameters \<times> failure option" where
  "Parameters_set K p d b =
     (if B_has_targets b \<and> (names_interval d \<noteq> None \<or> names_record_from d \<noteq> None)
      then (p, Some ConfigurationLockedError)
      else case names_interval d of
        None \<Rightarrow> (extract_data p d, None)
      | Some v \<Rightarrow>
          if time_less K (Time_ms K v) (get_resolution K)
          then (p, Some ResolutionTooCoarseError)
          else
            let p1 = p\<lparr> P_interval := Time_step K (get_steps K (Time_ms K v)) \<rparr>
            in if deviates (get_ms K (P_interval p1)) v
               then (p1, Some NonMultipleIntervalError)
               else (extract_data p1 d, None))"

subsection \<open>Requests\<close>

text \<open>
  \<open>update\<close> returns the multimeter and the requests handed to
  \<open>network()->send\<close>. What the targets send back arrives through \<open>handle\<close>.
\<close>

definition update ::
  "'t TimeOps \<Rightarrow> 't \<Rightarrow> int \<Rightarrow> int \<Rightarrow> 't Multimeter \<Rightarrow> 't Multimeter \<times> 't DataLoggingRequest list" where
  "update K origin from_step to_step m =
     (if get_steps K origin = 0 \<or> from_step \<noteq> 0 then (m, [])
      else
        (m\<lparr> V := (V m)\<lparr> V_new_request := (B_has_targets (B m) \<and> P_record_from (P m) \<noteq> []) \<rparr> \<rparr>,
         [DataLoggingRequest_empty]))"

subsection \<open>Replies\<close>

definition is_active :: "'t TimeOps \<Rightarrow> 't Multimeter \<Rightarrow> 't \<Rightarrow> bool" where
  "is_active K m T =
     (let stamp = get_steps K T
      in t_min (device m) < stamp \<and> stamp \<le> t_max (device m))"

text \<open>The body of the loop for an active point: \<open>set_stamp\<close>, \<open>write\<close>, \<open>push_back\<close>.\<close>

definition record_item :: "'t Multimeter \<Rightarrow> 't Item \<Rightarrow> 't Multimeter" where
  "record_item m x =
     m\<lparr> device := (device m)\<lparr> written := written (device m) @ [(timestamp x, data x)] \<rparr>,
        S := (S m)\<lparr> S_data := S_data (S m) @ [data x] \<rparr> \<rparr>"

text \<open>
  The loop over \<open>info\<close>, from the entry at hand on; the number is
  \<open>inactive_skipped\<close>, a local of \<open>handle\<close> that the model hands back.
\<close>

fun handle_loop :: "'t TimeOps \<Rightarrow> 't Item list \<Rightarrow> 't Multimeter \<Rightarrow> nat \<Rightarrow> 't Multimeter \<times> nat" where
  "handle_loop K [] m inactive_skipped = (m, inactive_skipped)"
| "handle_loop K (x # info) m inactive_skipped =
     (if \<not> is_finite K (timestamp x) then (m, inactive_skipped)
      else if \<not> is_active K m (timestamp x) then handle_loop K info m (Suc inactive_skipped)
      else handle_loop K info (record_item m x) inactive_skipped)"

definition handle :: "'t TimeOps \<Rightarrow> 't Multimeter \<Rightarrow> 't Item list \<Rightarrow> 't Multimeter \<times> nat" where
  "handle K m info = handle_loop K info m 0"

subsection \<open>Export\<close>

text \<open>
  The inner loop of \<open>add_data_\<close> for the variable \<open>v\<close>, over the rows still to
  come: the vector \<open>dv\<close>, or the assertion that fails.
\<close>

fun column :: "nat \<Rightarrow> real list list \<Rightarrow> failure + real list" where
  "column v [] = Inr []"
| "column v (row # rows) =
     (if v < length row
      then (case column v rows of Inl e \<Rightarrow> Inl e | Inr dv \<Rightarrow> Inr (row ! v # dv))
      else Inl AssertionFailure)"

text \<open>
  The outer loop, from the variable \<open>v\<close> on. The dictionary helpers
  \<open>initialize_property_doublevector\<close> and \<open>append_property\<close> are outside the
  file: \<open>d\<close> lists, in order, the name and the vector each pair of calls is given.
\<close>

fun add_data_loop ::
  "real list list \<Rightarrow> nat \<Rightarrow> Name list \<Rightarrow> (Name \<times> real list) list \<Rightarrow> failure + (Name \<times> real list) list" where
  "add_data_loop rows v [] d = Inr d"
| "add_data_loop rows v (n # ns) d =
     (case column v rows of
        Inl e \<Rightarrow> Inl e
      | Inr dv \<Rightarrow> add_data_loop rows (Suc v) ns (d @ [(n, dv)]))"

definition add_data ::
  "'t Multimeter \<Rightarrow> (Name \<times> real list) list \<Rightarrow> failure + (Name \<times> real list) list" where
  "add_data m d = add_data_loop (S_data (S m)) 0 (P_record_from (P m)) d"

subsection \<open>Example states\<close>

text \<open>
  A recording window from step 0 to step 40, the record list \<open>a, b\<close>, a
  connected target and nothing recorded yet.
\<close>

definition ex_dev :: "SpecTime RecordingDevice" where
  "ex_dev = \<lparr> t_min = 0, t_max = 40, written = [] \<rparr>"

definition ex_mm :: "SpecTime Multimeter" where
  "ex_mm =
     \<lparr> device = ex_dev,
       P = \<lparr> P_interval = Finite 5, P_record_from = [''a'', ''b''] \<rparr>,
       S = \<lparr> S_data = [] \<rparr>,
       B = \<lparr> B_has_targets = True \<rparr>,
       V = \<lparr> V_new_request = False, V_current_request_data_start = 0 \<rparr> \<rparr>"

section \<open>Properties\<close>

subsection \<open>The loops in closed form\<close>

lemma is_active_record_item: "is_active K (record_item m x) T = is_active K m T"
  by (simp add: is_active_def record_item_def)

lemma handle_loop_eq:
  "handle_loop K info m n =
     (m\<lparr> device := (device m)\<lparr> written := written (device m) @
            map (\<lambda>x. (timestamp x, data x))
              (filter (\<lambda>x. is_active K m (timestamp x)) (takeWhile (\<lambda>x. is_finite K (timestamp x)) info)) \<rparr>,
         S := (S m)\<lparr> S_data := S_data (S m) @
            map data (filter (\<lambda>x. is_active K m (timestamp x)) (takeWhile (\<lambda>x. is_finite K (timestamp x)) info)) \<rparr> \<rparr>,
      n + length (filter (\<lambda>x. \<not> is_active K m (timestamp x)) (takeWhile (\<lambda>x. is_finite K (timestamp x)) info)))"
proof (induction info arbitrary: m n)
  case Nil
  show ?case by simp
next
  case (Cons x info)
  show ?case
  proof (cases "is_finite K (timestamp x)")
    case False
    then show ?thesis by simp
  next
    case fin: True
    show ?thesis
    proof (cases "is_active K m (timestamp x)")
      case False
      with fin show ?thesis by (simp add: Cons.IH)
    next
      case True
      with fin show ?thesis
        by (simp add: Cons.IH is_active_record_item) (simp add: record_item_def)
    qed
  qed
qed

lemma column_eq:
  "column v rows =
     (if \<forall>row \<in> set rows. v < length row then Inr (map (\<lambda>row. row ! v) rows) else Inl AssertionFailure)"
  by (induction rows) auto

lemma add_data_loop_ok:
  "\<forall>row \<in> set rows. v + length ns \<le> length row \<Longrightarrow>
     add_data_loop rows v ns d =
       Inr (d @ zip ns (map (\<lambda>i. map (\<lambda>row. row ! i) rows) [v ..< v + length ns]))"
proof (induction ns arbitrary: v d)
  case Nil
  show ?case by simp
next
  case (Cons n ns)
  from Cons.prems have c: "column v rows = Inr (map (\<lambda>row. row ! v) rows)"
    by (auto simp: column_eq)
  from Cons.prems have "\<forall>row \<in> set rows. Suc v + length ns \<le> length row" by simp
  from Cons.IH [OF this]
  have r: "add_data_loop rows (Suc v) ns (d @ [(n, map (\<lambda>row. row ! v) rows)]) =
       Inr ((d @ [(n, map (\<lambda>row. row ! v) rows)]) @
         zip ns (map (\<lambda>i. map (\<lambda>row. row ! i) rows) [Suc v ..< Suc v + length ns]))" .
  have "[v ..< Suc v + length ns] = v # [Suc v ..< Suc v + length ns]"
    by (rule upt_conv_Cons) simp
  then have u: "[v ..< v + length (n # ns)] = v # [Suc v ..< Suc v + length ns]"
    by (simp del: upt_Suc)
  show ?case
    unfolding u by (simp add: c r)
qed

lemma add_data_loop_fails:
  "\<forall>row \<in> set rows. v \<le> length row \<Longrightarrow> \<exists>row \<in> set rows. length row < v + length ns \<Longrightarrow>
     add_data_loop rows v ns d = Inl AssertionFailure"
proof (induction ns arbitrary: v d)
  case Nil
  then show ?case by fastforce
next
  case (Cons n ns)
  show ?case
  proof (cases "\<forall>row \<in> set rows. v < length row")
    case False
    then have "column v rows = Inl AssertionFailure" by (auto simp: column_eq)
    then show ?thesis by simp
  next
    case True
    then have a: "\<forall>row \<in> set rows. Suc v \<le> length row" by auto
    from Cons.prems(2) have b: "\<exists>row \<in> set rows. length row < Suc v + length ns" by simp
    from True Cons.IH [OF a b] show ?thesis by (simp add: column_eq)
  qed
qed

subsection \<open>Rounding\<close>

text \<open>
  A double that bounds \<open>x\<close> and is a multiple of the unit in the last place of
  \<open>x\<close> bounds the rounded \<open>x\<close> as well. So a quotient within \<open>10 * epsilon\<close> of 1
  passes the tolerance test after rounding too.
\<close>

text \<open>\<open>ilog2\<close> is the exponent of a positive number.\<close>

lemma ilog2_bounds: "0 < x \<Longrightarrow> 2 powi (ilog2 x) \<le> x \<and> x < 2 powi (ilog2 x + 1)"
proof (induction x rule: ilog2.induct)
  case (1 x)
  show ?case
  proof (cases "2 \<le> x")
    case True
    then have e: "ilog2 x = ilog2 (x / 2) + 1" by (simp add: ilog2.simps [of x])
    from True "1.IH"(1) have "2 powi (ilog2 (x / 2)) \<le> x / 2 \<and> x / 2 < 2 powi (ilog2 (x / 2) + 1)"
      by simp
    then show ?thesis unfolding e by (simp add: power_int_add)
  next
    case False
    show ?thesis
    proof (cases "x < 1")
      case True
      with "1.prems" have e: "ilog2 x = ilog2 (2 * x) - 1" by (simp add: ilog2.simps [of x])
      from True False "1.prems" "1.IH"(2)
      have "2 powi (ilog2 (2 * x)) \<le> 2 * x \<and> 2 * x < 2 powi (ilog2 (2 * x) + 1)" by simp
      then show ?thesis unfolding e by (simp add: power_int_add power_int_diff)
    next
      case b: False
      with False have "ilog2 x = 0" by (simp add: ilog2.simps [of x])
      with b False show ?thesis by simp
    qed
  qed
qed

lemma ilog2_below_2: "x < 2 \<Longrightarrow> ilog2 x \<le> 0"
proof (induction x rule: ilog2.induct)
  case (1 x)
  show ?case
  proof (cases "0 < x \<and> x < 1")
    case True
    with "1.prems" "1.IH"(2) have "ilog2 (2 * x) \<le> 0" by simp
    moreover from True have "ilog2 x = ilog2 (2 * x) - 1" by (simp add: ilog2.simps [of x])
    ultimately show ?thesis by simp
  next
    case False
    with "1.prems" have "ilog2 x = 0" by (auto simp add: ilog2.simps [of x])
    then show ?thesis by simp
  qed
qed

lemma ilog2_below_1:
  assumes "0 < x" and "x < 1"
  shows "ilog2 x \<le> - 1"
proof -
  from assms have "ilog2 x = ilog2 (2 * x) - 1" by (simp add: ilog2.simps [of x])
  moreover from assms ilog2_below_2 [of "2 * x"] have "ilog2 (2 * x) \<le> 0" by simp
  ultimately show ?thesis by simp
qed

lemma rne_le: "y \<le> of_int n \<Longrightarrow> rne y \<le> n"
proof -
  assume a: "y \<le> of_int n"
  then have f: "\<lfloor>y\<rfloor> \<le> n" by (simp add: floor_le_iff)
  show ?thesis
  proof (cases "\<lfloor>y\<rfloor> = n")
    case True
    with a have "y = of_int n" by linarith
    then show ?thesis by (simp add: rne_def)
  next
    case False
    with f have "\<lfloor>y\<rfloor> + 1 \<le> n" by simp
    then show ?thesis by (simp add: rne_def Let_def)
  qed
qed

lemma rne_ge: "of_int n \<le> y \<Longrightarrow> n \<le> rne y"
proof -
  assume "of_int n \<le> y"
  then have "n \<le> \<lfloor>y\<rfloor>" by (simp add: le_floor_iff)
  then show ?thesis by (simp add: rne_def Let_def)
qed

lemma fl_pos:
  assumes "0 < x"
  shows "fl x = of_int (rne (x / 2 powi (ilog2 x - 52))) * 2 powi (ilog2 x - 52)"
  using assms by (simp add: fl_def Let_def)

lemma powi_split:
  assumes "k \<le> j"
  shows "(2::real) powi j = of_int (2 ^ nat (j - k)) * 2 powi k"
proof -
  from assms have "j = k + int (nat (j - k))" by simp
  then have "(2::real) powi j = 2 powi (k + int (nat (j - k)))" by simp
  also have "\<dots> = 2 powi k * 2 powi int (nat (j - k))" by (rule power_int_add) simp
  also have "(2::real) powi int (nat (j - k)) = 2 ^ nat (j - k)" by (rule power_int_of_nat)
  finally show ?thesis by (simp only: of_int_power of_int_numeral mult.commute)
qed

lemma fl_le:
  assumes "0 < x" and "x \<le> of_int M * 2 powi j" and "ilog2 x - 52 \<le> j"
  shows "fl x \<le> of_int M * 2 powi j"
proof -
  let ?u = "(2::real) powi (ilog2 x - 52)"
  let ?N = "M * 2 ^ nat (j - (ilog2 x - 52))"
  have u: "0 < ?u" by simp
  have b: "of_int M * 2 powi j = of_int ?N * ?u"
    using powi_split [OF assms(3)] by simp
  with assms(2) u have "x / ?u \<le> of_int ?N" by (simp add: field_simps)
  then have "rne (x / ?u) \<le> ?N" by (rule rne_le)
  then have "of_int (rne (x / ?u)) \<le> (of_int ?N :: real)" by (simp only: of_int_le_iff)
  with u have h: "of_int (rne (x / ?u)) * ?u \<le> of_int ?N * ?u" by (intro mult_right_mono) simp_all
  show ?thesis unfolding fl_pos [OF assms(1)] b by (rule h)
qed

lemma fl_ge:
  assumes "0 < x" and "of_int M * 2 powi j \<le> x" and "ilog2 x - 52 \<le> j"
  shows "of_int M * 2 powi j \<le> fl x"
proof -
  let ?u = "(2::real) powi (ilog2 x - 52)"
  let ?N = "M * 2 ^ nat (j - (ilog2 x - 52))"
  have u: "0 < ?u" by simp
  have b: "of_int M * 2 powi j = of_int ?N * ?u"
    using powi_split [OF assms(3)] by simp
  with assms(2) u have "of_int ?N \<le> x / ?u" by (simp add: field_simps)
  then have "?N \<le> rne (x / ?u)" by (rule rne_ge)
  then have "(of_int ?N :: real) \<le> of_int (rne (x / ?u))" by (simp only: of_int_le_iff)
  with u have h: "of_int ?N * ?u \<le> of_int (rne (x / ?u)) * ?u" by (intro mult_right_mono) simp_all
  show ?thesis unfolding fl_pos [OF assms(1)] b by (rule h)
qed

lemma abs_fl: "\<bar>fl x\<bar> = fl \<bar>x\<bar>"
proof (cases "x = 0")
  case True
  then show ?thesis by (simp add: fl_def)
next
  case False
  let ?u = "(2::real) powi (ilog2 \<bar>x\<bar> - 52)"
  have "0 \<le> \<bar>x\<bar> / ?u" by simp
  then have "of_int 0 \<le> \<bar>x\<bar> / ?u" by simp
  then have "0 \<le> rne (\<bar>x\<bar> / ?u)" by (rule rne_ge)
  with False show ?thesis by (simp add: fl_def Let_def abs_mult sgn_if)
qed


lemma within_tolerance:
  assumes "\<bar>1 - q\<bar> \<le> 10 * epsilon"
  shows "\<bar>fl (1 - fl q)\<bar> \<le> 10 * epsilon"
proof -
  have e: "10 * epsilon = of_int 10 * 2 powi (- 52)"
    by (simp add: epsilon_def)
  from assms have lo: "1 - 10 * epsilon \<le> q" by linarith
  from assms have hi: "q \<le> 1 + 10 * epsilon" by linarith
  have small: "10 * epsilon < 1 / 2" by (simp add: epsilon_def)
  have epos: "0 < epsilon" by (simp add: epsilon_def)
  from small lo have qpos: "0 < q" by linarith
  have u: "fl q \<le> 1 + 10 * epsilon"
  proof -
    have "1 + 10 * epsilon = of_int (2 ^ 52 + 10) * 2 powi (- 52)"
      by (simp add: epsilon_def)
    moreover from hi small have "q < 2" by linarith
    then have "ilog2 q - 52 \<le> - 52" using ilog2_below_2 [of q] by simp
    ultimately show ?thesis using fl_le [OF qpos, of "2 ^ 52 + 10" "- 52"] hi by simp
  qed
  have l: "1 - 10 * epsilon \<le> fl q"
  proof (cases "q < 1")
    case True
    have "1 - 10 * epsilon = of_int (2 ^ 53 - 20) * 2 powi (- 53)"
      by (simp add: epsilon_def)
    moreover from True qpos have "ilog2 q - 52 \<le> - 53" using ilog2_below_1 [of q] by simp
    ultimately show ?thesis using fl_ge [OF qpos, of "2 ^ 53 - 20" "- 53"] lo by simp
  next
    case False
    have "1 = of_int (2 ^ 52) * (2::real) powi (- 52)"
      by simp
    moreover from hi small have "q < 2" by linarith
    then have "ilog2 q - 52 \<le> - 52" using ilog2_below_2 [of q] by simp
    ultimately have "1 \<le> fl q" using fl_ge [OF qpos, of "2 ^ 52" "- 52"] False by simp
    with epos show ?thesis by linarith
  qed
  define d where "d = \<bar>1 - fl q\<bar>"
  from u l have d: "d \<le> 10 * epsilon" unfolding d_def by linarith
  have "fl d \<le> 10 * epsilon"
  proof (cases "d = 0")
    case True
    then show ?thesis by (simp add: fl_def epsilon_def)
  next
    case False
    then have dpos: "0 < d" unfolding d_def by simp
    from d small have "d < 2" by linarith
    then have "ilog2 d - 52 \<le> - 52" using ilog2_below_2 [of d] by simp
    with fl_le [OF dpos, of 10 "- 52"] d e show ?thesis by simp
  qed
  then show ?thesis unfolding abs_fl d_def .
qed

text \<open>
  Rounding can make the test pass where the exact quotient is too far from 1:
  \<open>11 / (11 + 14 / 2 ^ 49)\<close> is rounded to \<open>1 - 10 * epsilon\<close>.
\<close>

lemma deviates_rounded:
  "\<not> deviates 11 (11 + 14 / 2 ^ 49) \<and> \<bar>1 - 11 / (11 + 14 / 2 ^ 49)\<bar> > 10 * epsilon \<and>
   deviates 11 (11 + 15 / 2 ^ 49)"
  by (simp add: deviates_def fl_def rne_def epsilon_def Let_def ilog2.simps)

subsection \<open>Configuration\<close>

text \<open>
  C6. Once the multimeter has targets, \<open>set\<close> with the interval or the record
  list in the dictionary throws the first \<open>BadProperty\<close> (ConfigurationLockedError)
  and the parameters are as before, so \<open>get\<close> writes the same interval and
  record list as it did before the call.
\<close>

theorem set_locked:
  assumes "B_has_targets b" and "names_interval d \<noteq> None \<or> names_record_from d \<noteq> None"
  shows "Parameters_set K p d b = (p, Some ConfigurationLockedError) \<and>
         Parameters_get K (fst (Parameters_set K p d b)) d0 = Parameters_get K p d0"
  using assms by (simp add: Parameters_set_def)

theorem set_locked_witness:
  "B_has_targets \<lparr>B_has_targets = True\<rparr> \<and>
   names_interval \<lparr>names_interval = Some 5, names_record_from = None\<rparr> \<noteq> None \<and>
   Parameters_set (spec_time 1) (Parameters_default (spec_time 1))
     \<lparr>names_interval = Some 5, names_record_from = None\<rparr> \<lparr>B_has_targets = True\<rparr> =
     (Parameters_default (spec_time 1), Some ConfigurationLockedError)"
  using set_locked [of "\<lparr>B_has_targets = True\<rparr>" "\<lparr>names_interval = Some 5, names_record_from = None\<rparr>"
      "spec_time 1" "Parameters_default (spec_time 1)"]
  by simp

text \<open>
  C8. With no target connected (the lock test comes first in \<open>set\<close>), a
  candidate interval that compares smaller than the resolution makes \<open>set\<close>
  throw the second \<open>BadProperty\<close> (ResolutionTooCoarseError), the parameters
  untouched: for any \<open>Time\<close> in terms of its own \<open>operator<\<close>, and for the time
  of the spec whenever \<open>v < r\<close>.
\<close>

theorem set_too_coarse:
  assumes "\<not> B_has_targets b" and "names_interval d = Some v"
  shows "(time_less K (Time_ms K v) (get_resolution K) \<longrightarrow>
           Parameters_set K p d b = (p, Some ResolutionTooCoarseError)) \<and>
         (v < r \<longrightarrow> Parameters_set (spec_time r) q d b = (q, Some ResolutionTooCoarseError))"
  using assms by (simp add: Parameters_set_def spec_time_def)

theorem set_too_coarse_witness:
  "\<not> B_has_targets \<lparr>B_has_targets = False\<rparr> \<and> (1 / 2 :: real) < 1 \<and>
   Parameters_set (spec_time 1) (Parameters_default (spec_time 1))
     \<lparr>names_interval = Some (1 / 2), names_record_from = Some [''V_m'']\<rparr> \<lparr>B_has_targets = False\<rparr> =
     (Parameters_default (spec_time 1), Some ResolutionTooCoarseError)"
  using set_too_coarse [of "\<lparr>B_has_targets = False\<rparr>"
      "\<lparr>names_interval = Some (1 / 2), names_record_from = Some [''V_m'']\<rparr>" "1 / 2"
      "spec_time 1" "Parameters_default (spec_time 1)" 1 "Parameters_default (spec_time 1)"]
  by simp

text \<open>
  C1, as amended. With no target connected, a candidate interval that is not
  smaller than the resolution and whose rounded value fails the tolerance test,
  as the doubles compute it, makes \<open>set\<close> throw the third \<open>BadProperty\<close> (NonMultipleIntervalError). The
  record list is as before the call. The interval is not: \<open>set\<close> assigns the
  rounded value to \<open>interval_\<close> and tests the tolerance on the member afterwards,
  so the object it ran on holds the rounded interval when the exception leaves.
\<close>

theorem set_non_multiple:
  assumes "\<not> B_has_targets b" and "names_interval d = Some v"
    and "\<not> time_less K (Time_ms K v) (get_resolution K)"
    and "deviates (get_ms K (Time_step K (get_steps K (Time_ms K v)))) v"
  shows "Parameters_set K p d b =
           (p\<lparr> P_interval := Time_step K (get_steps K (Time_ms K v)) \<rparr>, Some NonMultipleIntervalError)"
  using assms by (simp add: Parameters_set_def Let_def)

theorem set_non_multiple_witness:
  "\<not> spec_less (Finite (9 / 4)) (Finite 1) \<and> deviates 2 (9 / 4) \<and>
   Parameters_set (spec_time 1) \<lparr>P_interval = Finite 1, P_record_from = [''a'']\<rparr>
     \<lparr>names_interval = Some (9 / 4), names_record_from = Some [''b'']\<rparr> \<lparr>B_has_targets = False\<rparr> =
     (\<lparr>P_interval = Finite 2, P_record_from = [''a'']\<rparr>, Some NonMultipleIntervalError)"
proof -
  have r: "round (9 / 4 :: real) = 2" by (simp add: round_def)
  have d: "deviates 2 (9 / 4)"
    by (simp add: deviates_def fl_def rne_def epsilon_def Let_def ilog2.simps)
  from r d set_non_multiple [of "\<lparr>B_has_targets = False\<rparr>"
      "\<lparr>names_interval = Some (9 / 4), names_record_from = Some [''b'']\<rparr>" "9 / 4"
      "spec_time 1" "\<lparr>P_interval = Finite 1, P_record_from = [''a'']\<rparr>"]
  show ?thesis by (simp add: spec_time_def)
qed

text \<open>
  The claim as it stands fails: at resolution 1 ms and stored interval 1 ms, the
  candidate 2.25 ms is rejected and leaves the stored interval at 2 ms.
\<close>

theorem set_non_multiple_counterexample:
  "Parameters_set (spec_time 1) \<lparr>P_interval = Finite 1, P_record_from = []\<rparr>
     \<lparr>names_interval = Some (9 / 4), names_record_from = None\<rparr> \<lparr>B_has_targets = False\<rparr> =
     (\<lparr>P_interval = Finite 2, P_record_from = []\<rparr>, Some NonMultipleIntervalError) \<and>
   \<lparr>P_interval = Finite 2, P_record_from = []\<rparr> \<noteq> \<lparr>P_interval = Finite 1, P_record_from = ([] :: Name list)\<rparr>"
proof -
  have r: "round (9 / 4 :: real) = 2" by (simp add: round_def)
  have d: "deviates 2 (9 / 4)"
    by (simp add: deviates_def fl_def rne_def epsilon_def Let_def ilog2.simps)
  from r d show ?thesis by (simp add: Parameters_set_def spec_time_def Let_def)
qed

text \<open>
  C7. With no target connected and the time of the spec at resolution \<open>r\<close>, a
  candidate interval \<open>v\<close> with \<open>r \<le> v\<close> whose nearest multiple of \<open>r\<close> is within
  the tolerance of \<open>10 * epsilon\<close> is accepted: \<open>set\<close> throws nothing, stores the
  nearest multiple of \<open>r\<close> (and the record list, if one was given), and \<open>get\<close>
  returns that multiple, which is \<open>v\<close> itself when \<open>v\<close> is a multiple of \<open>r\<close>.
\<close>

theorem set_multiple:
  assumes "\<not> B_has_targets b" and "names_interval d = Some v"
    and "r \<le> v"
    and "\<bar>1 - of_int (round (v / r)) * r / v\<bar> \<le> 10 * epsilon"
  shows "Parameters_set (spec_time r) p d b =
           (extract_data (p\<lparr> P_interval := Finite (of_int (round (v / r)) * r) \<rparr>) d, None) \<and>
         names_interval (Parameters_get (spec_time r) (fst (Parameters_set (spec_time r) p d b)) d0) =
           Some (of_int (round (v / r)) * r) \<and>
         (v = of_int n * r \<longrightarrow>
           names_interval (Parameters_get (spec_time r) (fst (Parameters_set (spec_time r) p d b)) d0) = Some v)"
proof -
  have v0: "v \<noteq> 0"
  proof
    assume "v = 0"
    with assms(4) show False by (simp add: epsilon_def)
  qed
  with within_tolerance [OF assms(4)] have nd: "\<not> deviates (of_int (round (v / r)) * r) v"
    by (simp add: deviates_def)
  from assms(1,2,3) nd
  have s: "Parameters_set (spec_time r) p d b =
           (extract_data (p\<lparr> P_interval := Finite (of_int (round (v / r)) * r) \<rparr>) d, None)"
    by (simp add: Parameters_set_def spec_time_def Let_def)
  have g: "names_interval (Parameters_get (spec_time r) (fst (Parameters_set (spec_time r) p d b)) d0) =
           Some (of_int (round (v / r)) * r)"
    unfolding s by (simp add: Parameters_get_def extract_data_def spec_time_def split: option.split)
  have e: "of_int (round (v / r)) * r = v" if "v = of_int n * r"
  proof -
    from that v0 have "r \<noteq> 0" by auto
    with that show ?thesis by simp
  qed
  show ?thesis
  proof (intro conjI impI)
    show "Parameters_set (spec_time r) p d b =
           (extract_data (p\<lparr> P_interval := Finite (of_int (round (v / r)) * r) \<rparr>) d, None)"
      by (rule s)
    show "names_interval (Parameters_get (spec_time r) (fst (Parameters_set (spec_time r) p d b)) d0) =
           Some (of_int (round (v / r)) * r)"
      by (rule g)
    assume a: "v = of_int n * r"
    show "names_interval (Parameters_get (spec_time r) (fst (Parameters_set (spec_time r) p d b)) d0) = Some v"
      using g unfolding e [OF a] .
  qed
qed

theorem set_multiple_witness:
  "(1 / 10 :: real) \<le> 5 \<and>
   Parameters_set (spec_time (1 / 10)) (Parameters_default (spec_time (1 / 10)))
     \<lparr>names_interval = Some 5, names_record_from = Some [''V_m'']\<rparr> \<lparr>B_has_targets = False\<rparr> =
     (\<lparr>P_interval = Finite 5, P_record_from = [''V_m'']\<rparr>, None) \<and>
   names_interval (Parameters_get (spec_time (1 / 10))
     (fst (Parameters_set (spec_time (1 / 10)) (Parameters_default (spec_time (1 / 10)))
       \<lparr>names_interval = Some 5, names_record_from = Some [''V_m'']\<rparr> \<lparr>B_has_targets = False\<rparr>))
     \<lparr>names_interval = None, names_record_from = None\<rparr>) = Some 5"
  using set_multiple [of "\<lparr>B_has_targets = False\<rparr>"
      "\<lparr>names_interval = Some 5, names_record_from = Some [''V_m'']\<rparr>" 5 "1 / 10"
      "Parameters_default (spec_time (1 / 10))" "\<lparr>names_interval = None, names_record_from = None\<rparr>" 50]
  by (simp add: epsilon_def extract_data_def Parameters_default_def Parameters_get_def spec_time_def)

subsection \<open>Requests\<close>

text \<open>
  C9. Called with an origin at step 0 (the first slice) or with a nonzero
  \<open>from\<close> (inside a slice), \<open>update\<close> returns at once: nothing is sent and the
  multimeter (data, parameters, \<open>has_targets_\<close>, \<open>new_request_\<close>, device) is as it was.
\<close>

theorem update_nothing:
  assumes "get_steps K origin = 0 \<or> from_step \<noteq> 0"
  shows "update K origin from_step to_step m = (m, [])"
  using assms by (simp add: update_def)

theorem update_nothing_witness:
  "(get_steps (spec_time 1) (Finite 0) = 0 \<or> (0::int) \<noteq> 0) \<and>
   update (spec_time 1) (Finite 0) 0 10 ex_mm = (ex_mm, []) \<and>
   ((3::int) \<noteq> 0) \<and> update (spec_time 1) (Finite 10) 3 10 ex_mm = (ex_mm, [])"
  using update_nothing [of "spec_time 1" "Finite 0" 0 10 ex_mm]
    update_nothing [of "spec_time 1" "Finite 10" 3 10 ex_mm]
  by (simp add: spec_time_def)

text \<open>
  C3, as amended. Called at the start of a later slice, \<open>update\<close> sets
  \<open>new_request_\<close> to \<open>has_targets_ && !record_from_.empty()\<close> and then sends
  exactly one \<open>DataLoggingRequest\<close>, whatever the flag is. The request is the one
  built with no argument: the interval and the record list are not passed to it.
\<close>

theorem update_request:
  assumes "get_steps K origin \<noteq> 0" and "from_step = 0"
  shows "update K origin from_step to_step m =
           (m\<lparr> V := (V m)\<lparr> V_new_request := (B_has_targets (B m) \<and> P_record_from (P m) \<noteq> []) \<rparr> \<rparr>,
            [DataLoggingRequest_empty])"
  using assms by (simp add: update_def)

theorem update_request_witness:
  "get_steps (spec_time 1) (Finite 10) \<noteq> 0 \<and>
   update (spec_time 1) (Finite 10) 0 10 ex_mm =
     (ex_mm\<lparr> V := \<lparr> V_new_request = True, V_current_request_data_start = 0 \<rparr> \<rparr>,
      [DataLoggingRequest_empty])"
  using update_request [of "spec_time 1" "Finite 10" 0 10 ex_mm]
  by (simp add: spec_time_def ex_mm_def)

text \<open>
  The claim as it stands fails: with interval 5 ms and record list \<open>a, b\<close>, the
  request sent is not the request built from the interval and the record list.
\<close>

theorem update_request_counterexample:
  "snd (update (spec_time 1) (Finite 10) 0 10 ex_mm) = [DataLoggingRequest_empty] \<and>
   snd (update (spec_time 1) (Finite 10) 0 10 ex_mm) \<noteq>
     [DataLoggingRequest_for (P_interval (P ex_mm)) (P_record_from (P ex_mm))]"
  by (simp add: update_def spec_time_def)

subsection \<open>Replies\<close>

text \<open>
  C4. \<open>handle\<close> goes through the points of a reply in order and stops at the
  first timestamp that is not finite. Of the points before it, those with
  \<open>t_min < steps \<le> t_max\<close> are written to the device, with their timestamp, and
  their value vectors appended to the data, in order; the others are only
  counted. With the window from 0 to 40 and the points 10, 50 and a non-finite
  one, whatever follows, the one row \<open>[1, 2]\<close> is appended and one point is skipped.
\<close>

theorem handle_batch:
  "handle K m info =
     (m\<lparr> device := (device m)\<lparr> written := written (device m) @
            map (\<lambda>x. (timestamp x, data x))
              (filter (\<lambda>x. is_active K m (timestamp x)) (takeWhile (\<lambda>x. is_finite K (timestamp x)) info)) \<rparr>,
         S := (S m)\<lparr> S_data := S_data (S m) @
            map data (filter (\<lambda>x. is_active K m (timestamp x)) (takeWhile (\<lambda>x. is_finite K (timestamp x)) info)) \<rparr> \<rparr>,
      length (filter (\<lambda>x. \<not> is_active K m (timestamp x)) (takeWhile (\<lambda>x. is_finite K (timestamp x)) info)))
   \<and>
   handle (spec_time 1) ex_mm
     ([\<lparr>timestamp = Finite 10, data = [1, 2]\<rparr>, \<lparr>timestamp = Finite 50, data = [3, 4]\<rparr>,
       \<lparr>timestamp = NonFinite, data = junk\<rparr>] @ later) =
     (ex_mm\<lparr> device := ex_dev\<lparr> written := [(Finite 10, [1, 2])] \<rparr>, S := \<lparr> S_data = [[1, 2]] \<rparr> \<rparr>, 1)"
proof
  show "handle K m info =
     (m\<lparr> device := (device m)\<lparr> written := written (device m) @
            map (\<lambda>x. (timestamp x, data x))
              (filter (\<lambda>x. is_active K m (timestamp x)) (takeWhile (\<lambda>x. is_finite K (timestamp x)) info)) \<rparr>,
         S := (S m)\<lparr> S_data := S_data (S m) @
            map data (filter (\<lambda>x. is_active K m (timestamp x)) (takeWhile (\<lambda>x. is_finite K (timestamp x)) info)) \<rparr> \<rparr>,
      length (filter (\<lambda>x. \<not> is_active K m (timestamp x)) (takeWhile (\<lambda>x. is_finite K (timestamp x)) info)))"
    unfolding handle_def by (simp add: handle_loop_eq)
next
  show "handle (spec_time 1) ex_mm
     ([\<lparr>timestamp = Finite 10, data = [1, 2]\<rparr>, \<lparr>timestamp = Finite 50, data = [3, 4]\<rparr>,
       \<lparr>timestamp = NonFinite, data = junk\<rparr>] @ later) =
     (ex_mm\<lparr> device := ex_dev\<lparr> written := [(Finite 10, [1, 2])] \<rparr>, S := \<lparr> S_data = [[1, 2]] \<rparr> \<rparr>, 1)"
    by (simp add: handle_def is_active_def record_item_def spec_time_def ex_mm_def ex_dev_def)
qed

text \<open>
  C10. \<open>handle\<close> does not look at the record list: a point before the end mark
  and inside the window whose value vector is not as long as the record list has
  that vector stored as a row all the same, and the record list is as before.
\<close>

theorem handle_no_length_check:
  assumes "x \<in> set (takeWhile (\<lambda>y. is_finite K (timestamp y)) info)"
    and "is_active K m (timestamp x)"
    and "length (data x) \<noteq> length (P_record_from (P m))"
  shows "data x \<in> set (S_data (S (fst (handle K m info)))) \<and>
         P (fst (handle K m info)) = P m \<and>
         length (data x) \<noteq> length (P_record_from (P (fst (handle K m info))))"
  using assms unfolding handle_def by (simp add: handle_loop_eq)

theorem handle_no_length_check_witness:
  "length (data \<lparr>timestamp = Finite 10, data = [1]\<rparr>) \<noteq> length (P_record_from (P ex_mm)) \<and>
   S_data (S (fst (handle (spec_time 1) ex_mm [\<lparr>timestamp = Finite 10, data = [1]\<rparr>]))) = [[1]] \<and>
   P_record_from (P (fst (handle (spec_time 1) ex_mm [\<lparr>timestamp = Finite 10, data = [1]\<rparr>]))) = [''a'', ''b'']"
  using handle_no_length_check [of "\<lparr>timestamp = Finite 10, data = [1]\<rparr>" "spec_time 1"
      "[\<lparr>timestamp = Finite 10, data = [1]\<rparr>]" ex_mm]
  by (simp add: handle_def is_active_def record_item_def spec_time_def ex_mm_def ex_dev_def)

subsection \<open>Export\<close>

text \<open>
  C5, as amended. When every row of the data has an entry for every name of the
  record list, \<open>add_data_\<close> builds one vector per index \<open>v\<close> of the record list, under
  the name at \<open>v\<close>, as long as the data, whose entry \<open>t\<close> is entry \<open>v\<close> of row \<open>t\<close>.
\<close>

theorem add_data_round_trip:
  assumes "\<forall>row \<in> set (S_data (S m)). length (P_record_from (P m)) \<le> length row"
  shows "\<exists>cols. add_data m [] = Inr cols \<and>
           length cols = length (P_record_from (P m)) \<and>
           (\<forall>v < length (P_record_from (P m)).
              fst (cols ! v) = P_record_from (P m) ! v \<and>
              length (snd (cols ! v)) = length (S_data (S m)) \<and>
              (\<forall>t < length (S_data (S m)). snd (cols ! v) ! t = S_data (S m) ! t ! v))"
proof -
  let ?ns = "P_record_from (P m)" and ?rows = "S_data (S m)"
  let ?cols = "zip ?ns (map (\<lambda>i. map (\<lambda>row. row ! i) ?rows) [0 ..< length ?ns])"
  from assms have "add_data m [] = Inr ?cols"
    unfolding add_data_def using add_data_loop_ok [of ?rows 0 ?ns "[]"] by simp
  moreover have "length ?cols = length ?ns" by simp
  moreover have "\<forall>v < length ?ns. fst (?cols ! v) = ?ns ! v \<and>
      length (snd (?cols ! v)) = length ?rows \<and>
      (\<forall>t < length ?rows. snd (?cols ! v) ! t = ?rows ! t ! v)"
    by simp
  ultimately show ?thesis by blast
qed

theorem add_data_round_trip_witness:
  "add_data (ex_mm\<lparr> S := \<lparr> S_data = [[1, 2], [3, 4], [5, 6]] \<rparr> \<rparr>) [] =
     Inr [(''a'', [1, 3, 5]), (''b'', [2, 4, 6])]"
proof -
  let ?m = "ex_mm\<lparr> S := \<lparr> S_data = [[1, 2], [3, 4], [5, 6]] \<rparr> \<rparr>"
  have h: "\<forall>row \<in> set (S_data (S ?m)). length (P_record_from (P ?m)) \<le> length row"
    by (simp add: ex_mm_def)
  from add_data_round_trip [OF h] obtain cols where c: "add_data ?m [] = Inr cols" by blast
  have "add_data ?m [] = Inr [(''a'', [1, 3, 5]), (''b'', [2, 4, 6])]"
    by (simp add: add_data_def ex_mm_def)
  with c show ?thesis by simp
qed

text \<open>
  The claim as it stands fails, since \<open>handle\<close> accepts a vector of any length:
  from the example state, one reply with the point 10 and the vector \<open>[1]\<close> is
  accepted, and the export of the data built that way stops at the assertion.
\<close>

theorem add_data_round_trip_counterexample:
  "S_data (S (fst (handle (spec_time 1) ex_mm [\<lparr>timestamp = Finite 10, data = [1]\<rparr>]))) = [[1]] \<and>
   P_record_from (P (fst (handle (spec_time 1) ex_mm [\<lparr>timestamp = Finite 10, data = [1]\<rparr>]))) =
     [''a'', ''b''] \<and>
   add_data (fst (handle (spec_time 1) ex_mm [\<lparr>timestamp = Finite 10, data = [1]\<rparr>])) [] =
     Inl AssertionFailure"
  by (simp add: handle_def is_active_def record_item_def spec_time_def ex_mm_def ex_dev_def add_data_def)

text \<open>
  C2, as amended. When some row of the data is shorter than the record list,
  \<open>add_data_\<close> runs into \<open>assert( v < S_.data_[ t ].size() )\<close>: the process is
  aborted, no exception is thrown and nothing is exported.
\<close>

theorem add_data_assertion:
  assumes "\<exists>row \<in> set (S_data (S m)). length row < length (P_record_from (P m))"
  shows "add_data m d = Inl AssertionFailure \<and> terminates_process AssertionFailure"
  using assms add_data_loop_fails [of "S_data (S m)" 0 "P_record_from (P m)" d]
  unfolding add_data_def by simp

theorem add_data_assertion_witness:
  "(\<exists>row \<in> set (S_data (S (ex_mm\<lparr> S := \<lparr> S_data = [[1, 2], [3]] \<rparr> \<rparr>))).
      length row < length (P_record_from (P (ex_mm\<lparr> S := \<lparr> S_data = [[1, 2], [3]] \<rparr> \<rparr>)))) \<and>
   add_data (ex_mm\<lparr> S := \<lparr> S_data = [[1, 2], [3]] \<rparr> \<rparr>) [] = Inl AssertionFailure"
  using add_data_assertion [of "ex_mm\<lparr> S := \<lparr> S_data = [[1, 2], [3]] \<rparr> \<rparr>" "[]"]
  by (simp add: ex_mm_def)

text \<open>
  The claim as it stands fails: with the record list \<open>a, b\<close> and the rows
  \<open>[1, 2]\<close> and \<open>[3]\<close>, the failure is the one that ends the process.
\<close>

theorem add_data_assertion_counterexample:
  "add_data (ex_mm\<lparr> S := \<lparr> S_data = [[1, 2], [3]] \<rparr> \<rparr>) [] = Inl AssertionFailure \<and>
   terminates_process AssertionFailure"
  by (simp add: add_data_def ex_mm_def)

end
